theory Spec2Isabelle
  imports Main
begin

section \<open>Values, errors and the persisted tables\<close>

text \<open>
  A JavaScript id is either \<open>undefined\<close> (\<open>None\<close>) or a number. The constructor of
  \<open>Group\<close> stores whatever it is given, so a never-inserted group has id \<open>None\<close>.
\<close>

type_synonym js_id = "nat option"

datatype error =
    PreconditionError  \<comment> \<open>\<open>throw new Error('Attempt to insert a group that already has an ID')\<close>\<close>
  | NotFound           \<comment> \<open>\<open>one\<close> received no row\<close>
  | MultipleRows       \<comment> \<open>\<open>one\<close> received more than one row\<close>
  | UnexpectedRows     \<comment> \<open>\<open>none\<close> received a row\<close>
  | Conflict           \<comment> \<open>the store refused the statement\<close>

text \<open>\<open>class Group\<close>: the constructor assigns \<open>this.id\<close> and \<open>this.name\<close>.\<close>

record Group =
  group_id :: js_id
  group_name :: string

datatype meter_type = MAMAC | OtherProtocol

text \<open>
  Modelled from the spec: \<open>models/Meter.js\<close> and \<open>models/Reading.js\<close> are absent. The
  fields are those of the spec's data model and of the constructor calls in
  \<open>updateMetersTests.js\<close>; timestamps are instants on an integer time line.
\<close>

record Meter =
  meter_id :: js_id
  meter_name :: string
  meter_identifier :: int
  meter_enabled :: bool
  meter_displayable :: bool
  meter_kind :: meter_type

record Reading =
  reading_meterID :: js_id
  reading_value :: int
  startTimestamp :: int
  endTimestamp :: int

text \<open>
  Modelled from the spec: the tables behind the SQL files, which are absent. Group rows are
  \<open>(id, name)\<close>, meter rows carry the fields of a Meter; the two edge relations hold \<open>(parent_id, child_id)\<close> and
  \<open>(group_id, meter_id)\<close> pairs of the values the statements were given.
\<close>

type_synonym meter_row = "nat \<times> string \<times> int \<times> bool \<times> bool \<times> meter_type"

record store =
  groups :: "(nat \<times> string) list"
  meters :: "meter_row list"
  groups_immediate_children :: "(js_id \<times> js_id) list"
  groups_immediate_meters :: "(js_id \<times> js_id) list"
  readings :: "Reading list"

type_synonym 'r statement = "store \<Rightarrow> (error + 'r list) \<times> store"
type_synonym 'a promise = "store \<Rightarrow> (error + 'a) \<times> store"

section \<open>The connection: \<open>one\<close>, \<open>none\<close>, \<open>any\<close>\<close>

text \<open>
  \<open>conn().one\<close> resolves to the single row of the result and rejects on any other
  row count; \<open>conn().none\<close> rejects when a row comes back; \<open>conn().any\<close> resolves to
  all rows. The statement has run in each case, so its store is the one passed on.
\<close>

definition db_one :: "'r statement \<Rightarrow> 'r promise" where
  "db_one q s =
     (case q s of
        (Inl e, s') \<Rightarrow> (Inl e, s')
      | (Inr rows, s') \<Rightarrow>
          (case rows of
             [] \<Rightarrow> (Inl NotFound, s')
           | [r] \<Rightarrow> (Inr r, s')
           | _ \<Rightarrow> (Inl MultipleRows, s')))"

definition db_none :: "'r statement \<Rightarrow> unit promise" where
  "db_none q s =
     (case q s of
        (Inl e, s') \<Rightarrow> (Inl e, s')
      | (Inr rows, s') \<Rightarrow> (if rows = [] then (Inr (), s') else (Inl UnexpectedRows, s')))"

definition db_any :: "'r statement \<Rightarrow> ('r list) promise" where
  "db_any q s = q s"

text \<open>\<open>const x = await m; rest\<close>: a rejection of \<open>m\<close> skips the rest.\<close>

definition await :: "'a promise \<Rightarrow> ('a \<Rightarrow> 'b promise) \<Rightarrow> 'b promise" where
  "await m f s = (case m s of (Inl e, s') \<Rightarrow> (Inl e, s') | (Inr a, s') \<Rightarrow> f a s')"

definition resolve :: "'a \<Rightarrow> 'a promise" where
  "resolve a s = (Inr a, s)"

section \<open>The SQL statements\<close>

text \<open>
  Modelled from the spec: the files under \<open>sql/group/\<close> are absent. Each statement below
  is the query primitive the spec lists for the Group Graph Store (by-name lookup, by-id
  lookup, insert, edge insert and delete, recursive descendant query), over the tables
  above.
\<close>

text \<open>
  Modelled from the spec: \<open>insert_new_group.sql\<close>, "assigns new id, persists". Group
  names are unique in the persisted layout, so the store refuses a name that a row
  already has. Otherwise the statement returns the one row \<open>{ id }\<close>; the new id is
  above every id in the table.
\<close>

definition fresh_id :: "(nat \<times> string) list \<Rightarrow> nat" where
  "fresh_id rows = Suc (foldr max (map fst rows) 0)"

definition sql_insert_new_group :: "Group \<Rightarrow> nat statement" where
  "sql_insert_new_group g s =
     (if group_name g \<in> snd ` set (groups s) then (Inl Conflict, s)
      else let i = fresh_id (groups s)
           in (Inr [i], s\<lparr>groups := groups s @ [(i, group_name g)]\<rparr>))"

text \<open>Modelled from the spec: \<open>get_group_by_name.sql\<close>, the by-name lookup.\<close>

definition sql_get_group_by_name :: "string \<Rightarrow> (nat \<times> string) statement" where
  "sql_get_group_by_name n s = (Inr (filter (\<lambda>row. snd row = n) (groups s)), s)"

text \<open>Modelled from the spec: \<open>get_group_by_id.sql\<close>, the by-id lookup.\<close>

definition sql_get_group_by_id :: "js_id \<Rightarrow> (nat \<times> string) statement" where
  "sql_get_group_by_id i s = (Inr (filter (\<lambda>row. Some (fst row) = i) (groups s)), s)"

text \<open>Modelled from the spec: \<open>get_all_groups.sql\<close>.\<close>

definition sql_get_all_groups :: "(nat \<times> string) statement" where
  "sql_get_all_groups s = (Inr (groups s), s)"

text \<open>Modelled from the spec: \<open>get_immediate_meters_by_group_id.sql\<close>, one-hop children.\<close>

definition sql_get_immediate_meters_by_group_id :: "js_id \<Rightarrow> (js_id \<times> js_id) statement" where
  "sql_get_immediate_meters_by_group_id i s =
     (Inr (filter (\<lambda>row. fst row = i) (groups_immediate_meters s)), s)"

text \<open>Modelled from the spec: \<open>get_immediate_groups_by_group_id.sql\<close>, one-hop children.\<close>

definition sql_get_immediate_groups_by_group_id :: "js_id \<Rightarrow> (js_id \<times> js_id) statement" where
  "sql_get_immediate_groups_by_group_id i s =
     (Inr (filter (\<lambda>row. fst row = i) (groups_immediate_children s)), s)"

text \<open>
  Modelled from the spec: \<open>associate_child_group_with_parent_group.sql\<close> and
  \<open>associate_child_meter_with_parent_group.sql\<close>, the edge insert. The relations are
  sets of pairs, so an edge that is already there is not stored twice.
\<close>

definition sql_associate_child_group_with_parent_group :: "js_id \<Rightarrow> js_id \<Rightarrow> unit statement" where
  "sql_associate_child_group_with_parent_group parent_id child_id s =
     (Inr [], s\<lparr>groups_immediate_children :=
                  List.insert (parent_id, child_id) (groups_immediate_children s)\<rparr>)"

definition sql_associate_child_meter_with_parent_group :: "js_id \<Rightarrow> js_id \<Rightarrow> unit statement" where
  "sql_associate_child_meter_with_parent_group gid mid s =
     (Inr [], s\<lparr>groups_immediate_meters :=
                  List.insert (gid, mid) (groups_immediate_meters s)\<rparr>)"

text \<open>
  Modelled from the spec: \<open>get_deep_groups_by_group_id.sql\<close>, the recursive descendant
  query: "a visited-set traversal (breadth-first or depth-first) with id deduplication".
  The walk is depth-first over a worklist; a node already seen is dropped.
\<close>

definition children_of :: "('a \<times> 'a) list \<Rightarrow> 'a \<Rightarrow> 'a list" where
  "children_of es x = map snd (filter (\<lambda>row. fst row = x) es)"

function deep_walk :: "('a \<times> 'a) list \<Rightarrow> 'a list \<Rightarrow> 'a list \<Rightarrow> 'a list" where
  "deep_walk es [] seen = seen"
| "deep_walk es (x # todo) seen =
     (if x \<in> set seen then deep_walk es todo seen
      else deep_walk es (children_of es x @ todo) (seen @ [x]))"
  by pat_completeness auto

termination deep_walk
proof (relation "inv_image (less_than <*lex*> less_than)
         (\<lambda>(es, todo, seen). (card ((snd ` set es \<union> set todo) - set seen), length todo))")
  show "wf (inv_image (less_than <*lex*> less_than)
         (\<lambda>(es :: ('a \<times> 'a) list, todo, seen).
            (card ((snd ` set es \<union> set todo) - set seen), length todo)))"
    by (intro wf_inv_image wf_lex_prod wf_less_than)
next
  fix es :: "('a \<times> 'a) list" and x :: 'a and todo seen :: "'a list"
  assume "x \<in> set seen"
  then have "(snd ` set es \<union> set todo) - set seen = (snd ` set es \<union> set (x # todo)) - set seen"
    by auto
  then show "((es, todo, seen), (es, x # todo, seen)) \<in> inv_image (less_than <*lex*> less_than)
         (\<lambda>(es, todo, seen). (card ((snd ` set es \<union> set todo) - set seen), length todo))"
    by simp
next
  fix es :: "('a \<times> 'a) list" and x :: 'a and todo seen :: "'a list"
  assume x: "x \<notin> set seen"
  let ?new = "(snd ` set es \<union> set (children_of es x @ todo)) - set (seen @ [x])"
  let ?old = "(snd ` set es \<union> set (x # todo)) - set seen"
  have "set (children_of es x) \<subseteq> snd ` set es" by (auto simp: children_of_def)
  then have "?new \<subseteq> ?old" by auto
  moreover have "x \<in> ?old" "x \<notin> ?new" using x by auto
  ultimately have "?new \<subset> ?old" by blast
  moreover have "finite ?old" by simp
  ultimately have "card ?new < card ?old" by (rule psubset_card_mono [rotated])
  then show "((es, children_of es x @ todo, seen @ [x]), (es, x # todo, seen))
       \<in> inv_image (less_than <*lex*> less_than)
         (\<lambda>(es, todo, seen). (card ((snd ` set es \<union> set todo) - set seen), length todo))"
    by simp
qed

definition sql_get_deep_groups_by_group_id :: "js_id \<Rightarrow> (js_id \<times> js_id) statement" where
  "sql_get_deep_groups_by_group_id i s =
     (Inr (map (\<lambda>c. (i, c))
             (deep_walk (groups_immediate_children s)
                (children_of (groups_immediate_children s) i) [])), s)"

text \<open>
  Modelled from the spec: \<open>rename_group.sql\<close>: "updates name", "fails with Conflict on
  duplicate name" (group names are unique in the persisted layout).
\<close>

definition sql_rename_group :: "string \<Rightarrow> js_id \<Rightarrow> unit statement" where
  "sql_rename_group new_name i s =
     (if \<exists>row \<in> set (groups s). snd row = new_name \<and> Some (fst row) \<noteq> i
      then (Inl Conflict, s)
      else (Inr [], s\<lparr>groups :=
              map (\<lambda>row. if Some (fst row) = i then (fst row, new_name) else row) (groups s)\<rparr>))"

text \<open>Modelled from the spec: \<open>disown_child_group.sql\<close> and \<open>disown_child_meter.sql\<close>, the edge delete.\<close>

definition sql_disown_child_group :: "js_id \<Rightarrow> js_id \<Rightarrow> unit statement" where
  "sql_disown_child_group parent_id child_id s =
     (Inr [], s\<lparr>groups_immediate_children :=
                  filter (\<lambda>row. row \<noteq> (parent_id, child_id)) (groups_immediate_children s)\<rparr>)"

definition sql_disown_child_meter :: "js_id \<Rightarrow> js_id \<Rightarrow> unit statement" where
  "sql_disown_child_meter parent_id mid s =
     (Inr [], s\<lparr>groups_immediate_meters :=
                  filter (\<lambda>row. row \<noteq> (parent_id, mid)) (groups_immediate_meters s)\<rparr>)"

text \<open>Modelled from the spec: \<open>get_parents_by_group_id.sql\<close>, one-hop parents.\<close>

definition sql_get_parents_by_group_id :: "js_id \<Rightarrow> (js_id \<times> js_id) statement" where
  "sql_get_parents_by_group_id child_id s =
     (Inr (filter (\<lambda>row. snd row = child_id) (groups_immediate_children s)), s)"

text \<open>
  Modelled from the spec: \<open>delete_group.sql\<close>. The method's own comment is "delete a group
  and purge all trace of it form the memories of its parents and children", and the spec's
  effect is "removes group and purges all edges in both directions".
\<close>

definition sql_delete_group :: "js_id \<Rightarrow> unit statement" where
  "sql_delete_group i s =
     (Inr [], s\<lparr>groups := filter (\<lambda>row. Some (fst row) \<noteq> i) (groups s),
                groups_immediate_children :=
                  filter (\<lambda>row. fst row \<noteq> i \<and> snd row \<noteq> i) (groups_immediate_children s),
                groups_immediate_meters :=
                  filter (\<lambda>row. fst row \<noteq> i) (groups_immediate_meters s)\<rparr>)"

text \<open>
  Modelled from the spec: \<open>Meter.getByID\<close> of the absent \<open>models/Meter.js\<close>, the Meter
  Registry's lookup "used by the Group Hierarchy Engine to validate adopt targets"; it
  has the shape of \<open>Group.getByID\<close>.
\<close>

definition sql_get_meter_by_id :: "js_id \<Rightarrow> meter_row statement" where
  "sql_get_meter_by_id i s = (Inr (filter (\<lambda>row. Some (fst row) = i) (meters s)), s)"

definition Meter_mapRow :: "meter_row \<Rightarrow> Meter" where
  "Meter_mapRow row =
     (case row of (i, n, ident, en, disp, k) \<Rightarrow>
        \<lparr>meter_id = Some i, meter_name = n, meter_identifier = ident, meter_enabled = en,
         meter_displayable = disp, meter_kind = k\<rparr>)"

definition Meter_getByID :: "js_id \<Rightarrow> Meter promise" where
  "Meter_getByID i = await (db_one (sql_get_meter_by_id i)) (\<lambda>row. resolve (Meter_mapRow row))"

section \<open>\<open>models/Group.js\<close>\<close>

text \<open>
  A method of a \<open>Group\<close> object returns its outcome, the object after the call and the
  store after the call. \<open>keeping this\<close> is a method body with no assignment to
  \<open>this\<close>.
\<close>

type_synonym 'a group_call = "store \<Rightarrow> (error + 'a) \<times> Group \<times> store"

definition keeping :: "Group \<Rightarrow> 'a promise \<Rightarrow> 'a group_call" where
  "keeping this m s = (case m s of (r, s') \<Rightarrow> (r, this, s'))"

definition insert_group :: "Group \<Rightarrow> unit group_call" where
  "insert_group this s =
     (if group_id this \<noteq> None then (Inl PreconditionError, this, s)
      else case db_one (sql_insert_new_group this) s of
             (Inl e, s') \<Rightarrow> (Inl e, this, s')
           | (Inr resp, s') \<Rightarrow> (Inr (), this\<lparr>group_id := Some resp\<rparr>, s'))"

definition mapRow :: "nat \<times> string \<Rightarrow> Group" where
  "mapRow row = \<lparr>group_id = Some (fst row), group_name = snd row\<rparr>"

definition getByName :: "string \<Rightarrow> Group promise" where
  "getByName n = await (db_one (sql_get_group_by_name n)) (\<lambda>row. resolve (mapRow row))"

definition getByID :: "js_id \<Rightarrow> Group promise" where
  "getByID i = await (db_one (sql_get_group_by_id i)) (\<lambda>row. resolve (mapRow row))"

definition getAll :: "(Group list) promise" where
  "getAll = await (db_any sql_get_all_groups) (\<lambda>rows. resolve (map mapRow rows))"

definition getImmediateMetersByGroupID :: "js_id \<Rightarrow> (js_id list) promise" where
  "getImmediateMetersByGroupID i =
     await (db_any (sql_get_immediate_meters_by_group_id i)) (\<lambda>rows. resolve (map snd rows))"

definition getImmediateGroupsByGroupID :: "js_id \<Rightarrow> (js_id list) promise" where
  "getImmediateGroupsByGroupID i =
     await (db_any (sql_get_immediate_groups_by_group_id i)) (\<lambda>rows. resolve (map snd rows))"

definition adoptGroup :: "Group \<Rightarrow> js_id \<Rightarrow> unit group_call" where
  "adoptGroup this childID =
     keeping this
       (await (getByID childID) (\<lambda>child.
          db_none (sql_associate_child_group_with_parent_group (group_id this) (group_id child))))"

definition adoptMeter :: "Group \<Rightarrow> js_id \<Rightarrow> unit group_call" where
  "adoptMeter this childID =
     keeping this
       (await (Meter_getByID childID) (\<lambda>meter.
          db_none (sql_associate_child_meter_with_parent_group (group_id this) (meter_id meter))))"

definition getDeepGroupsByGroupID :: "js_id \<Rightarrow> (js_id list) promise" where
  "getDeepGroupsByGroupID i =
     await (db_any (sql_get_deep_groups_by_group_id i)) (\<lambda>rows. resolve (map snd rows))"

definition rename :: "Group \<Rightarrow> string \<Rightarrow> unit group_call" where
  "rename this newName = keeping this (db_none (sql_rename_group newName (group_id this)))"

definition disownGroup :: "Group \<Rightarrow> js_id \<Rightarrow> unit group_call" where
  "disownGroup this childID =
     keeping this (db_none (sql_disown_child_group (group_id this) childID))"

definition disownMeter :: "Group \<Rightarrow> js_id \<Rightarrow> unit group_call" where
  "disownMeter this meterID =
     keeping this (db_none (sql_disown_child_meter (group_id this) meterID))"

definition getParents :: "Group \<Rightarrow> (js_id list) group_call" where
  "getParents this =
     keeping this
       (await (db_any (sql_get_parents_by_group_id (group_id this))) (\<lambda>rows. resolve (map fst rows)))"

definition delete_group :: "js_id \<Rightarrow> unit promise" where
  "delete_group groupID = db_none (sql_delete_group groupID)"

section \<open>The update cycle\<close>








section \<open>Example stores\<close>

text \<open>Three groups, one meter, the edge from group 1 to group 2 and group 1's meter.\<close>

definition store0 :: store where
  "store0 = \<lparr>groups = [(1, ''A''), (2, ''B''), (3, ''C'')],
     meters = [(1, ''GOOD'', 1, True, True, MAMAC)],
     groups_immediate_children = [(Some 1, Some 2)],
     groups_immediate_meters = [(Some 1, Some 1)],
     readings = []\<rparr>"

text \<open>
  A diamond: group 1 has the children 2 and 3, and both have the child 4. The two stores
  hold the same edges, inserted in opposite orders.
\<close>

definition diamond1 :: store where
  "diamond1 = \<lparr>groups = [(1, ''A''), (2, ''B''), (3, ''C''), (4, ''D'')], meters = [],
     groups_immediate_children =
       [(Some 1, Some 2), (Some 1, Some 3), (Some 2, Some 4), (Some 3, Some 4)],
     groups_immediate_meters = [], readings = []\<rparr>"

definition diamond2 :: store where
  "diamond2 = \<lparr>groups = [(1, ''A''), (2, ''B''), (3, ''C''), (4, ''D'')], meters = [],
     groups_immediate_children =
       [(Some 3, Some 4), (Some 2, Some 4), (Some 1, Some 3), (Some 1, Some 2)],
     groups_immediate_meters = [], readings = []\<rparr>"






section \<open>Lookups by id\<close>

lemma filter_id_empty:
  "i \<notin> Some ` fst ` set rows \<Longrightarrow> filter (\<lambda>row. Some (fst row) = i) rows = []"
  by (auto simp: filter_empty_conv)

lemma filter_id_single:
  "distinct (map fst rows) \<Longrightarrow> (k, v) \<in> set rows \<Longrightarrow>
     filter (\<lambda>row. fst row = k) rows = [(k, v)]"
proof (induction rows)
  case Nil
  then show ?case by simp
next
  case (Cons r rows)
  show ?case
  proof (cases "r = (k, v)")
    case True
    with Cons.prems have "k \<notin> fst ` set rows" by auto
    then have "filter (\<lambda>row. fst row = k) rows = []"
      by (auto simp: filter_empty_conv)
    with True show ?thesis by simp
  next
    case False
    with Cons.prems have in_rows: "(k, v) \<in> set rows" and d: "distinct (map fst rows)"
      and nr: "fst r \<notin> fst ` set rows" by auto
    from in_rows have "k \<in> fst ` set rows" by force
    with nr have "fst r \<noteq> k" by auto
    with Cons.IH [OF d in_rows] show ?thesis by simp
  qed
qed

lemma getByID_absent:
  "i \<notin> Some ` fst ` set (groups s) \<Longrightarrow> getByID i s = (Inl NotFound, s)"
  by (simp add: getByID_def await_def db_one_def sql_get_group_by_id_def filter_id_empty)

lemma getByID_present:
  "distinct (map fst (groups s)) \<Longrightarrow> (k, n) \<in> set (groups s) \<Longrightarrow>
     getByID (Some k) s = (Inr \<lparr>group_id = Some k, group_name = n\<rparr>, s)"
  by (simp add: getByID_def await_def db_one_def sql_get_group_by_id_def filter_id_single
      resolve_def mapRow_def)

lemma Meter_getByID_absent:
  "i \<notin> Some ` fst ` set (meters s) \<Longrightarrow> Meter_getByID i s = (Inl NotFound, s)"
  by (simp add: Meter_getByID_def await_def db_one_def sql_get_meter_by_id_def filter_id_empty)

lemma Meter_getByID_present:
  "distinct (map fst (meters s)) \<Longrightarrow> (k, v) \<in> set (meters s) \<Longrightarrow>
     \<exists>m. meter_id m = Some k \<and> Meter_getByID (Some k) s = (Inr m, s)"
  by (simp add: Meter_getByID_def await_def db_one_def sql_get_meter_by_id_def filter_id_single
      resolve_def Meter_mapRow_def split: prod.splits)

lemma adoptGroup_present:
  assumes "distinct (map fst (groups s))" and "childID \<in> Some ` fst ` set (groups s)"
  shows "adoptGroup this childID s =
           (Inr (), this, s\<lparr>groups_immediate_children :=
              List.insert (group_id this, childID) (groups_immediate_children s)\<rparr>)"
proof -
  from assms(2) obtain k n where "childID = Some k" "(k, n) \<in> set (groups s)" by auto
  with assms(1) show ?thesis
    by (simp add: adoptGroup_def keeping_def await_def getByID_present db_none_def
        sql_associate_child_group_with_parent_group_def)
qed

lemma adoptMeter_present:
  assumes "distinct (map fst (meters s))" and "childID \<in> Some ` fst ` set (meters s)"
  shows "adoptMeter this childID s =
           (Inr (), this, s\<lparr>groups_immediate_meters :=
              List.insert (group_id this, childID) (groups_immediate_meters s)\<rparr>)"
proof -
  from assms(2) obtain k v where kv: "childID = Some k" "(k, v) \<in> set (meters s)" by auto
  from Meter_getByID_present [OF assms(1) kv(2)]
  obtain m where "meter_id m = Some k" "Meter_getByID (Some k) s = (Inr m, s)" by blast
  with kv show ?thesis
    by (simp add: adoptMeter_def keeping_def await_def db_none_def
        sql_associate_child_meter_with_parent_group_def)
qed

section \<open>Adopting a child\<close>

text \<open>
  C5. When no group of the store has the id \<open>childID\<close>, \<open>adoptGroup\<close> rejects with
  \<open>NotFound\<close> and has no effect: the store after the call is the store before it (so no
  parent-child edge was added) and the parent object is as it was.
\<close>

theorem adoptGroup_child_absent:
  "childID \<notin> Some ` fst ` set (groups s) \<Longrightarrow>
     adoptGroup parent childID s = (Inl NotFound, parent, s)"
  by (simp add: adoptGroup_def keeping_def await_def getByID_absent)

theorem adoptGroup_child_absent_witness:
  "Some 7 \<notin> Some ` fst ` set (groups store0) \<and>
   adoptGroup \<lparr>group_id = Some 1, group_name = ''A''\<rparr> (Some 7) store0
     = (Inl NotFound, \<lparr>group_id = Some 1, group_name = ''A''\<rparr>, store0)"
  using adoptGroup_child_absent [of "Some 7" store0 "\<lparr>group_id = Some 1, group_name = ''A''\<rparr>"]
  by (simp add: store0_def)

text \<open>
  C9. \<open>adoptGroup\<close> and \<open>adoptMeter\<close> look the child up and nothing else. In a store
  whose ids are keys, each rejects exactly when the child id is absent, and otherwise
  inserts the edge from \<open>this.id\<close> to the child, whatever \<open>this.id\<close> is: the parent is
  never looked up, and \<open>this.id\<close> may be \<open>undefined\<close>.
\<close>

theorem adopt_validates_child_only:
  "distinct (map fst (groups s)) \<and> distinct (map fst (meters s)) \<Longrightarrow>
     adoptGroup this childID s =
       (if childID \<in> Some ` fst ` set (groups s)
        then (Inr (), this, s\<lparr>groups_immediate_children :=
                List.insert (group_id this, childID) (groups_immediate_children s)\<rparr>)
        else (Inl NotFound, this, s)) \<and>
     adoptMeter this childID s =
       (if childID \<in> Some ` fst ` set (meters s)
        then (Inr (), this, s\<lparr>groups_immediate_meters :=
                List.insert (group_id this, childID) (groups_immediate_meters s)\<rparr>)
        else (Inl NotFound, this, s))"
  by (simp add: adoptGroup_present adoptMeter_present)
     (simp add: adoptGroup_def adoptMeter_def keeping_def await_def getByID_absent
        Meter_getByID_absent)

theorem adopt_validates_child_only_witness:
  "distinct (map fst (groups store0)) \<and> distinct (map fst (meters store0)) \<and>
   adoptGroup \<lparr>group_id = None, group_name = ''N''\<rparr> (Some 2) store0 =
     (Inr (), \<lparr>group_id = None, group_name = ''N''\<rparr>,
      store0\<lparr>groups_immediate_children := [(None, Some 2), (Some 1, Some 2)]\<rparr>) \<and>
   adoptMeter \<lparr>group_id = None, group_name = ''N''\<rparr> (Some 1) store0 =
     (Inr (), \<lparr>group_id = None, group_name = ''N''\<rparr>,
      store0\<lparr>groups_immediate_meters := [(None, Some 1), (Some 1, Some 1)]\<rparr>)"
  using adopt_validates_child_only
          [of store0 "\<lparr>group_id = None, group_name = ''N''\<rparr>" "Some 2"]
        adopt_validates_child_only
          [of store0 "\<lparr>group_id = None, group_name = ''N''\<rparr>" "Some 1"]
  by (simp add: store0_def)

section \<open>Inserting a group\<close>

lemma foldr_max_ge: "x \<in> set xs \<Longrightarrow> x \<le> foldr max xs (a::nat)"
  by (induction xs) (auto simp: max_def)

lemma fresh_id_fresh: "fresh_id rows \<notin> fst ` set rows"
proof
  assume "fresh_id rows \<in> fst ` set rows"
  then have "fresh_id rows \<in> set (map fst rows)" by simp
  then have "fresh_id rows \<le> foldr max (map fst rows) 0" by (rule foldr_max_ge)
  then show False by (simp add: fresh_id_def)
qed

text \<open>
  C6, as the claim states it, fails: the group has an undefined id, but its name \<open>A\<close> is
  the name of group 1, and \<open>insert\<close> is rejected by the store with nothing persisted and
  no id assigned.
\<close>

theorem insert_group_duplicate_name_counterexample:
  "group_id \<lparr>group_id = None, group_name = ''A''\<rparr> = None \<and>
   (1, ''A'') \<in> set (groups store0) \<and>
   insert_group \<lparr>group_id = None, group_name = ''A''\<rparr> store0
     = (Inl Conflict, \<lparr>group_id = None, group_name = ''A''\<rparr>, store0)"
  by (simp add: insert_group_def db_one_def sql_insert_new_group_def store0_def)

text \<open>
  C6, amended. A group whose id is already assigned is rejected by \<open>insert\<close> with the
  precondition error, before any statement is sent: the store and the object are
  unchanged. A group with undefined id whose name no group of the store has is persisted
  as a new row, and the object is given the row's id, which no row had before. A group
  with undefined id whose name is taken is rejected by the store, and the store and the
  object are unchanged.
\<close>

theorem insert_group_precondition:
  "(group_id g \<noteq> None \<longrightarrow> insert_group g s = (Inl PreconditionError, g, s)) \<and>
   (group_id g = None \<and> group_name g \<notin> snd ` set (groups s) \<longrightarrow>
      (\<exists>i. i \<notin> fst ` set (groups s) \<and>
           insert_group g s =
             (Inr (), g\<lparr>group_id := Some i\<rparr>, s\<lparr>groups := groups s @ [(i, group_name g)]\<rparr>))) \<and>
   (group_id g = None \<and> group_name g \<in> snd ` set (groups s) \<longrightarrow>
      insert_group g s = (Inl Conflict, g, s))"
proof (intro conjI impI)
  assume "group_id g \<noteq> None"
  then show "insert_group g s = (Inl PreconditionError, g, s)"
    by (simp add: insert_group_def)
next
  assume "group_id g = None \<and> group_name g \<notin> snd ` set (groups s)"
  then have "insert_group g s =
      (Inr (), g\<lparr>group_id := Some (fresh_id (groups s))\<rparr>,
       s\<lparr>groups := groups s @ [(fresh_id (groups s), group_name g)]\<rparr>)"
    by (simp add: insert_group_def db_one_def sql_insert_new_group_def Let_def)
  with fresh_id_fresh [of "groups s"]
  show "\<exists>i. i \<notin> fst ` set (groups s) \<and>
           insert_group g s =
             (Inr (), g\<lparr>group_id := Some i\<rparr>, s\<lparr>groups := groups s @ [(i, group_name g)]\<rparr>)"
    by blast
next
  assume "group_id g = None \<and> group_name g \<in> snd ` set (groups s)"
  then show "insert_group g s = (Inl Conflict, g, s)"
    by (simp add: insert_group_def db_one_def sql_insert_new_group_def)
qed

theorem insert_group_precondition_witness:
  "insert_group \<lparr>group_id = Some 5, group_name = ''D''\<rparr> store0
     = (Inl PreconditionError, \<lparr>group_id = Some 5, group_name = ''D''\<rparr>, store0) \<and>
   ''D'' \<notin> snd ` set (groups store0) \<and>
   (\<exists>i. i \<notin> fst ` set (groups store0) \<and>
        insert_group \<lparr>group_id = None, group_name = ''D''\<rparr> store0 =
          (Inr (), \<lparr>group_id = Some i, group_name = ''D''\<rparr>,
           store0\<lparr>groups := groups store0 @ [(i, ''D'')]\<rparr>)) \<and>
   ''B'' \<in> snd ` set (groups store0) \<and>
   insert_group \<lparr>group_id = None, group_name = ''B''\<rparr> store0
     = (Inl Conflict, \<lparr>group_id = None, group_name = ''B''\<rparr>, store0)"
proof -
  have d: "''D'' \<notin> snd ` set (groups store0)" and b: "''B'' \<in> snd ` set (groups store0)"
    by (simp_all add: store0_def)
  from d b
    insert_group_precondition [of "\<lparr>group_id = Some 5, group_name = ''D''\<rparr>" store0]
    insert_group_precondition [of "\<lparr>group_id = None, group_name = ''D''\<rparr>" store0]
    insert_group_precondition [of "\<lparr>group_id = None, group_name = ''B''\<rparr>" store0]
  show ?thesis by simp
qed

section \<open>Renaming\<close>

text \<open>
  C10. After \<open>rename\<close> has resolved, the Group object is the object it was called on:
  no field has changed, and its \<open>name\<close> is still the old name.
\<close>

theorem rename_keeps_object:
  "fst (rename this newName s) = Inr () \<Longrightarrow>
     fst (snd (rename this newName s)) = this \<and>
     group_name (fst (snd (rename this newName s))) = group_name this \<and>
     group_id (fst (snd (rename this newName s))) = group_id this"
  by (simp add: rename_def keeping_def split: prod.splits)

theorem rename_keeps_object_witness:
  "fst (rename \<lparr>group_id = Some 1, group_name = ''A''\<rparr> ''Z'' store0) = Inr () \<and>
   group_name (fst (snd (rename \<lparr>group_id = Some 1, group_name = ''A''\<rparr> ''Z'' store0))) = ''A'' \<and>
   groups (snd (snd (rename \<lparr>group_id = Some 1, group_name = ''A''\<rparr> ''Z'' store0)))
     = [(1, ''Z''), (2, ''B''), (3, ''C'')]"
proof -
  have ok: "fst (rename \<lparr>group_id = Some 1, group_name = ''A''\<rparr> ''Z'' store0) = Inr ()"
    by (simp add: rename_def keeping_def db_none_def sql_rename_group_def store0_def)
  have "groups (snd (snd (rename \<lparr>group_id = Some 1, group_name = ''A''\<rparr> ''Z'' store0)))
     = [(1, ''Z''), (2, ''B''), (3, ''C'')]"
    by (simp add: rename_def keeping_def db_none_def sql_rename_group_def store0_def)
  with ok rename_keeps_object [OF ok] show ?thesis by simp
qed

lemma map_fst_rename:
  "map (fst \<circ> (\<lambda>row. if P row then (fst row, n) else row)) rows = map fst rows"
  by (induction rows) auto

text \<open>
  C7. When a group other than this one already has the name \<open>newName\<close>, \<open>rename\<close>
  rejects with \<open>Conflict\<close> and changes nothing. When no other group has the name,
  \<open>rename\<close> resolves and the persisted row of this group carries the new name: in a
  store whose ids are keys, looking the group up by its id afterwards yields the new name.
\<close>

theorem rename_conflict_or_update:
  "((\<exists>row \<in> set (groups s). snd row = newName \<and> Some (fst row) \<noteq> group_id this) \<longrightarrow>
      rename this newName s = (Inl Conflict, this, s)) \<and>
   ((\<forall>row \<in> set (groups s). snd row = newName \<longrightarrow> Some (fst row) = group_id this) \<longrightarrow>
      rename this newName s =
        (Inr (), this,
         s\<lparr>groups := map (\<lambda>row. if Some (fst row) = group_id this then (fst row, newName) else row)
                        (groups s)\<rparr>)) \<and>
   ((\<forall>row \<in> set (groups s). snd row = newName \<longrightarrow> Some (fst row) = group_id this) \<and>
    distinct (map fst (groups s)) \<and> group_id this = Some k \<and> (k, old) \<in> set (groups s) \<longrightarrow>
      getByID (Some k) (snd (snd (rename this newName s)))
        = (Inr \<lparr>group_id = Some k, group_name = newName\<rparr>, snd (snd (rename this newName s))))"
proof (intro conjI impI)
  assume "\<exists>row \<in> set (groups s). snd row = newName \<and> Some (fst row) \<noteq> group_id this"
  then show "rename this newName s = (Inl Conflict, this, s)"
    by (simp add: rename_def keeping_def db_none_def sql_rename_group_def)
next
  assume u: "\<forall>row \<in> set (groups s). snd row = newName \<longrightarrow> Some (fst row) = group_id this"
  then have "\<not> (\<exists>row \<in> set (groups s). snd row = newName \<and> Some (fst row) \<noteq> group_id this)"
    by blast
  then show "rename this newName s =
        (Inr (), this,
         s\<lparr>groups := map (\<lambda>row. if Some (fst row) = group_id this then (fst row, newName) else row)
                        (groups s)\<rparr>)"
    by (auto simp: rename_def keeping_def db_none_def sql_rename_group_def)
next
  assume a: "(\<forall>row \<in> set (groups s). snd row = newName \<longrightarrow> Some (fst row) = group_id this) \<and>
    distinct (map fst (groups s)) \<and> group_id this = Some k \<and> (k, old) \<in> set (groups s)"
  let ?rows = "map (\<lambda>row. if Some (fst row) = group_id this then (fst row, newName) else row) (groups s)"
  from a have "\<not> (\<exists>row \<in> set (groups s). snd row = newName \<and> Some (fst row) \<noteq> group_id this)"
    by blast
  then have r: "snd (snd (rename this newName s)) = s\<lparr>groups := ?rows\<rparr>"
    by (auto simp: rename_def keeping_def db_none_def sql_rename_group_def)
  from a have d: "distinct (map fst (groups (s\<lparr>groups := ?rows\<rparr>)))"
    by (simp add: map_fst_rename)
  from a have "(k, newName) \<in> set ?rows" by force
  then have "(k, newName) \<in> set (groups (s\<lparr>groups := ?rows\<rparr>))" by simp
  from getByID_present [OF d this] r
  show "getByID (Some k) (snd (snd (rename this newName s)))
        = (Inr \<lparr>group_id = Some k, group_name = newName\<rparr>, snd (snd (rename this newName s)))"
    by simp
qed

theorem rename_conflict_or_update_witness:
  "(2, ''B'') \<in> set (groups store0) \<and>
   rename \<lparr>group_id = Some 1, group_name = ''A''\<rparr> ''B'' store0
     = (Inl Conflict, \<lparr>group_id = Some 1, group_name = ''A''\<rparr>, store0) \<and>
   ''Z'' \<notin> snd ` set (groups store0) \<and>
   rename \<lparr>group_id = Some 1, group_name = ''A''\<rparr> ''Z'' store0
     = (Inr (), \<lparr>group_id = Some 1, group_name = ''A''\<rparr>,
        store0\<lparr>groups := [(1, ''Z''), (2, ''B''), (3, ''C'')]\<rparr>) \<and>
   getByID (Some 1) (snd (snd (rename \<lparr>group_id = Some 1, group_name = ''A''\<rparr> ''Z'' store0)))
     = (Inr \<lparr>group_id = Some 1, group_name = ''Z''\<rparr>,
        snd (snd (rename \<lparr>group_id = Some 1, group_name = ''A''\<rparr> ''Z'' store0)))"
  using rename_conflict_or_update
          [of store0 "''B''" "\<lparr>group_id = Some 1, group_name = ''A''\<rparr>" 1 "''A''"]
        rename_conflict_or_update
          [of store0 "''Z''" "\<lparr>group_id = Some 1, group_name = ''A''\<rparr>" 1 "''A''"]
  by (simp add: store0_def getByID_def await_def db_one_def sql_get_group_by_id_def
      resolve_def mapRow_def)

section \<open>Disowning a child\<close>

lemma filter_absent: "e \<notin> set xs \<Longrightarrow> filter (\<lambda>row. row \<noteq> e) xs = xs"
  by (induction xs) auto

text \<open>
  C8. \<open>disownGroup\<close> and \<open>disownMeter\<close> on an edge that is not there resolve and leave
  the store as it was. In every store they resolve, remove the named edge and no other,
  leave the other tables alone, and a second run on the result changes nothing.
\<close>

theorem disown_absent_noop:
  "((group_id this, childID) \<notin> set (groups_immediate_children s) \<longrightarrow>
      disownGroup this childID s = (Inr (), this, s)) \<and>
   ((group_id this, meterID) \<notin> set (groups_immediate_meters s) \<longrightarrow>
      disownMeter this meterID s = (Inr (), this, s)) \<and>
   (case disownGroup this childID s of (r, this', s') \<Rightarrow>
      r = Inr () \<and> this' = this \<and>
      set (groups_immediate_children s') = set (groups_immediate_children s) - {(group_id this, childID)} \<and>
      groups_immediate_meters s' = groups_immediate_meters s \<and>
      groups s' = groups s \<and> meters s' = meters s \<and> readings s' = readings s \<and>
      disownGroup this' childID s' = (Inr (), this', s')) \<and>
   (case disownMeter this meterID s of (r, this', s') \<Rightarrow>
      r = Inr () \<and> this' = this \<and>
      set (groups_immediate_meters s') = set (groups_immediate_meters s) - {(group_id this, meterID)} \<and>
      groups_immediate_children s' = groups_immediate_children s \<and>
      groups s' = groups s \<and> meters s' = meters s \<and> readings s' = readings s \<and>
      disownMeter this' meterID s' = (Inr (), this', s'))"
  by (auto simp: disownGroup_def disownMeter_def keeping_def db_none_def
      sql_disown_child_group_def sql_disown_child_meter_def filter_absent)

theorem disown_absent_noop_witness:
  "(Some 2, Some 3) \<notin> set (groups_immediate_children store0) \<and>
   disownGroup \<lparr>group_id = Some 2, group_name = ''B''\<rparr> (Some 3) store0
     = (Inr (), \<lparr>group_id = Some 2, group_name = ''B''\<rparr>, store0) \<and>
   (Some 2, Some 1) \<notin> set (groups_immediate_meters store0) \<and>
   disownMeter \<lparr>group_id = Some 2, group_name = ''B''\<rparr> (Some 1) store0
     = (Inr (), \<lparr>group_id = Some 2, group_name = ''B''\<rparr>, store0)"
  using disown_absent_noop [of "\<lparr>group_id = Some 2, group_name = ''B''\<rparr>" "Some 3" store0 "Some 1"]
  by (simp add: store0_def)

section \<open>Deleting a group\<close>

text \<open>
  C3, as the claim states it, fails: group 2 is still referenced by the edge from group 1,
  \<open>delete\<close> has no cascade argument, and \<open>delete(2)\<close> resolves instead of rejecting with
  \<open>Conflict\<close>.
\<close>

theorem delete_referenced_counterexample:
  "(Some 1, Some 2) \<in> set (groups_immediate_children store0) \<and>
   fst (getParents \<lparr>group_id = Some 2, group_name = ''B''\<rparr> store0) = Inr [Some 1] \<and>
   delete_group (Some 2) store0 =
     (Inr (), store0\<lparr>groups := [(1, ''A''), (3, ''C'')], groups_immediate_children := []\<rparr>)"
  by (simp add: store0_def delete_group_def db_none_def sql_delete_group_def getParents_def
      keeping_def await_def db_any_def sql_get_parents_by_group_id_def resolve_def)

text \<open>
  C3, amended. \<open>delete(groupID)\<close> takes no cascade option and does not reject a group
  that is still referenced: it always resolves, removes the group and purges its edges in
  both directions and its meter edges. Afterwards the group is not found, its children,
  meters and parents are empty, and no group lists it as a child or as a parent. Nothing
  else is touched: the group rows, the group edges and the meter edges after the call are
  those before it, in their order, without the ones that mention the id, and the meters and
  the readings are as they were.
\<close>

theorem delete_group_purges:
  "\<exists>s'. delete_group groupID s = (Inr (), s') \<and>
     fst (getByID groupID s') = Inl NotFound \<and>
     fst (getImmediateGroupsByGroupID groupID s') = Inr [] \<and>
     fst (getImmediateMetersByGroupID groupID s') = Inr [] \<and>
     fst (getParents \<lparr>group_id = groupID, group_name = n\<rparr> s') = Inr [] \<and>
     (\<forall>p cs. fst (getImmediateGroupsByGroupID p s') = Inr cs \<longrightarrow> groupID \<notin> set cs) \<and>
     (\<forall>g ps. fst (getParents g s') = Inr ps \<longrightarrow> groupID \<notin> set ps) \<and>
     set (groups_immediate_children s') =
       {e \<in> set (groups_immediate_children s). fst e \<noteq> groupID \<and> snd e \<noteq> groupID} \<and>
     set (groups s') = {row \<in> set (groups s). Some (fst row) \<noteq> groupID} \<and>
     groups s' = filter (\<lambda>row. Some (fst row) \<noteq> groupID) (groups s) \<and>
     groups_immediate_children s' =
       filter (\<lambda>row. fst row \<noteq> groupID \<and> snd row \<noteq> groupID) (groups_immediate_children s) \<and>
     groups_immediate_meters s' =
       filter (\<lambda>row. fst row \<noteq> groupID) (groups_immediate_meters s) \<and>
     meters s' = meters s \<and> readings s' = readings s"
proof -
  let ?s' = "s\<lparr>groups := filter (\<lambda>row. Some (fst row) \<noteq> groupID) (groups s),
                groups_immediate_children :=
                  filter (\<lambda>row. fst row \<noteq> groupID \<and> snd row \<noteq> groupID) (groups_immediate_children s),
                groups_immediate_meters :=
                  filter (\<lambda>row. fst row \<noteq> groupID) (groups_immediate_meters s)\<rparr>"
  have d: "delete_group groupID s = (Inr (), ?s')"
    by (simp add: delete_group_def db_none_def sql_delete_group_def)
  have "groupID \<notin> Some ` fst ` set (groups ?s')" by auto
  then have g: "fst (getByID groupID ?s') = Inl NotFound" by (simp add: getByID_absent)
  have c: "fst (getImmediateGroupsByGroupID groupID ?s') = Inr []"
    by (auto simp: getImmediateGroupsByGroupID_def await_def db_any_def
        sql_get_immediate_groups_by_group_id_def resolve_def filter_empty_conv)
  have m: "fst (getImmediateMetersByGroupID groupID ?s') = Inr []"
    by (simp add: getImmediateMetersByGroupID_def await_def db_any_def
        sql_get_immediate_meters_by_group_id_def resolve_def filter_empty_conv)
  have p: "fst (getParents \<lparr>group_id = groupID, group_name = n\<rparr> ?s') = Inr []"
    by (auto simp: getParents_def keeping_def await_def db_any_def
        sql_get_parents_by_group_id_def resolve_def filter_empty_conv)
  have oc: "\<forall>p cs. fst (getImmediateGroupsByGroupID p ?s') = Inr cs \<longrightarrow> groupID \<notin> set cs"
    by (auto simp: getImmediateGroupsByGroupID_def await_def db_any_def
        sql_get_immediate_groups_by_group_id_def resolve_def)
  have op: "\<forall>g ps. fst (getParents g ?s') = Inr ps \<longrightarrow> groupID \<notin> set ps"
    by (auto simp: getParents_def keeping_def await_def db_any_def
        sql_get_parents_by_group_id_def resolve_def)
  have e: "set (groups_immediate_children ?s') =
       {e \<in> set (groups_immediate_children s). fst e \<noteq> groupID \<and> snd e \<noteq> groupID}"
    by auto
  have r: "set (groups ?s') = {row \<in> set (groups s). Some (fst row) \<noteq> groupID}"
    by auto
  have k: "groups ?s' = filter (\<lambda>row. Some (fst row) \<noteq> groupID) (groups s) \<and>
     groups_immediate_children ?s' =
       filter (\<lambda>row. fst row \<noteq> groupID \<and> snd row \<noteq> groupID) (groups_immediate_children s) \<and>
     groups_immediate_meters ?s' =
       filter (\<lambda>row. fst row \<noteq> groupID) (groups_immediate_meters s) \<and>
     meters ?s' = meters s \<and> readings ?s' = readings s"
    by simp
  from d g c m p oc op e r k show ?thesis by blast
qed

theorem delete_group_purges_witness:
  "\<exists>s'. delete_group (Some 2) store0 = (Inr (), s') \<and>
     fst (getParents \<lparr>group_id = Some 2, group_name = ''B''\<rparr> s') = Inr [] \<and>
     fst (getImmediateGroupsByGroupID (Some 1) s') = Inr [] \<and>
     groups s' = [(1, ''A''), (3, ''C'')] \<and>
     groups_immediate_meters s' = [(Some 1, Some 1)] \<and>
     meters s' = [(1, ''GOOD'', 1, True, True, MAMAC)] \<and> readings s' = []"
proof -
  from delete_group_purges [of "Some 2" store0 "''B''"]
  obtain s' where s': "delete_group (Some 2) store0 = (Inr (), s')"
    and p: "fst (getParents \<lparr>group_id = Some 2, group_name = ''B''\<rparr> s') = Inr []"
    by blast
  have "delete_group (Some 2) store0 =
     (Inr (), store0\<lparr>groups := [(1, ''A''), (3, ''C'')], groups_immediate_children := []\<rparr>)"
    by (simp add: delete_group_def db_none_def sql_delete_group_def store0_def)
  with s' have eq: "s' = store0\<lparr>groups := [(1, ''A''), (3, ''C'')], groups_immediate_children := []\<rparr>"
    by simp
  have "fst (getImmediateGroupsByGroupID (Some 1) s') = Inr []"
    unfolding eq
    by (simp add: getImmediateGroupsByGroupID_def await_def db_any_def
        sql_get_immediate_groups_by_group_id_def resolve_def)
  moreover have "groups s' = [(1, ''A''), (3, ''C'')] \<and>
     groups_immediate_meters s' = [(Some 1, Some 1)] \<and>
     meters s' = [(1, ''GOOD'', 1, True, True, MAMAC)] \<and> readings s' = []"
    unfolding eq by (simp add: store0_def)
  ultimately show ?thesis using s' p by blast
qed

section \<open>Deep descendants\<close>

lemma set_children_of: "set (children_of es x) = set es `` {x}"
  by (auto simp: children_of_def image_iff)

lemma deep_walk_mono: "set seen \<union> set todo \<subseteq> set (deep_walk es todo seen)"
  by (induction es todo seen rule: deep_walk.induct) auto

lemma deep_walk_closed:
  "\<forall>x \<in> set seen. set es `` {x} \<subseteq> set seen \<union> set todo \<Longrightarrow>
     set es `` set (deep_walk es todo seen) \<subseteq> set (deep_walk es todo seen)"
proof (induction es todo seen rule: deep_walk.induct)
  case (1 es seen)
  then show ?case by auto
next
  case (2 es x todo seen)
  show ?case
  proof (cases "x \<in> set seen")
    case True
    with 2 show ?thesis by auto
  next
    case False
    have "\<forall>y \<in> set (seen @ [x]). set es `` {y} \<subseteq> set (seen @ [x]) \<union> set (children_of es x @ todo)"
      using "2.prems" by (auto simp: set_children_of)
    with 2(2) [OF False] False show ?thesis by simp
  qed
qed

lemma deep_walk_sound:
  "set seen \<subseteq> T \<Longrightarrow> set todo \<subseteq> T \<Longrightarrow> set es `` T \<subseteq> T \<Longrightarrow>
     set (deep_walk es todo seen) \<subseteq> T"
proof (induction es todo seen rule: deep_walk.induct)
  case (1 es seen)
  then show ?case by simp
next
  case (2 es x todo seen)
  show ?case
  proof (cases "x \<in> set seen")
    case True
    with 2 show ?thesis by simp
  next
    case False
    from "2.prems" have "x \<in> T" by simp
    with "2.prems" have "set (children_of es x) \<subseteq> T" by (auto simp: set_children_of)
    with 2(2) [OF False] "2.prems" False show ?thesis by simp
  qed
qed

lemma deep_walk_distinct: "distinct seen \<Longrightarrow> distinct (deep_walk es todo seen)"
  by (induction es todo seen rule: deep_walk.induct) auto

lemma deep_walk_trancl:
  "set (deep_walk es (children_of es i) []) = (set es)\<^sup>+ `` {i}"
proof
  let ?D = "set (deep_walk es (children_of es i) [])"
  have "set es `` ((set es)\<^sup>+ `` {i}) \<subseteq> (set es)\<^sup>+ `` {i}" by (auto intro: trancl_into_trancl)
  moreover have "set (children_of es i) \<subseteq> (set es)\<^sup>+ `` {i}" by (auto simp: set_children_of)
  ultimately show "?D \<subseteq> (set es)\<^sup>+ `` {i}"
    by (intro deep_walk_sound) auto
  have base: "set es `` {i} \<subseteq> ?D"
    using deep_walk_mono [of "[]" "children_of es i" es] by (simp add: set_children_of)
  have closed: "set es `` ?D \<subseteq> ?D" by (rule deep_walk_closed) simp
  show "(set es)\<^sup>+ `` {i} \<subseteq> ?D"
  proof
    fix y
    assume "y \<in> (set es)\<^sup>+ `` {i}"
    then have "(i, y) \<in> (set es)\<^sup>+" by simp
    then show "y \<in> ?D"
    proof (induction rule: trancl_induct)
      case (base y)
      with \<open>set es `` {i} \<subseteq> ?D\<close> show ?case by auto
    next
      case (step y z)
      with closed show ?case by auto
    qed
  qed
qed

lemma getDeepGroupsByGroupID_eq:
  "getDeepGroupsByGroupID i s =
     (Inr (deep_walk (groups_immediate_children s)
             (children_of (groups_immediate_children s) i) []), s)"
  by (simp add: getDeepGroupsByGroupID_def await_def db_any_def
      sql_get_deep_groups_by_group_id_def resolve_def o_def)

text \<open>
  C4. For every group id and every edge relation (a DAG with diamonds in particular),
  \<open>getDeepGroupsByGroupID\<close> returns: it resolves to a list without duplicates whose
  elements are exactly the ids reachable from the given id along one or more child edges.
  A store holding the same edges in another order gives the same set.
\<close>

theorem getDeepGroupsByGroupID_closure:
  "\<exists>ds. getDeepGroupsByGroupID i s = (Inr ds, s) \<and> distinct ds \<and>
     set ds = (set (groups_immediate_children s))\<^sup>+ `` {i} \<and>
     (\<forall>s'. set (groups_immediate_children s') = set (groups_immediate_children s) \<longrightarrow>
        (\<exists>ds'. getDeepGroupsByGroupID i s' = (Inr ds', s') \<and> distinct ds' \<and> set ds' = set ds))"
proof -
  let ?ds = "\<lambda>s. deep_walk (groups_immediate_children s)
             (children_of (groups_immediate_children s) i) []"
  have d: "distinct (?ds t)" for t by (rule deep_walk_distinct) simp
  have "\<exists>ds'. getDeepGroupsByGroupID i s' = (Inr ds', s') \<and> distinct ds' \<and> set ds' = set (?ds s)"
    if "set (groups_immediate_children s') = set (groups_immediate_children s)" for s'
    using that d [of s'] by (simp add: getDeepGroupsByGroupID_eq deep_walk_trancl)
  with d [of s] show ?thesis
    by (simp add: getDeepGroupsByGroupID_eq deep_walk_trancl)
qed

theorem getDeepGroupsByGroupID_closure_witness:
  "set (groups_immediate_children diamond2) = set (groups_immediate_children diamond1) \<and>
   getDeepGroupsByGroupID (Some 1) diamond1 = (Inr [Some 2, Some 4, Some 3], diamond1) \<and>
   getDeepGroupsByGroupID (Some 1) diamond2 = (Inr [Some 3, Some 4, Some 2], diamond2) \<and>
   (\<exists>ds'. getDeepGroupsByGroupID (Some 1) diamond2 = (Inr ds', diamond2) \<and> distinct ds' \<and>
      set ds' = set [Some 2, Some 4, Some 3])"
proof -
  have e: "set (groups_immediate_children diamond2) = set (groups_immediate_children diamond1)"
    by (auto simp: diamond1_def diamond2_def)
  have d1: "getDeepGroupsByGroupID (Some 1) diamond1 = (Inr [Some 2, Some 4, Some 3], diamond1)"
    by (simp add: getDeepGroupsByGroupID_eq diamond1_def children_of_def)
  have d2: "getDeepGroupsByGroupID (Some 1) diamond2 = (Inr [Some 3, Some 4, Some 2], diamond2)"
    by (simp add: getDeepGroupsByGroupID_eq diamond2_def children_of_def)
  from getDeepGroupsByGroupID_closure [of "Some 1" diamond1] d1 e
  have "\<exists>ds'. getDeepGroupsByGroupID (Some 1) diamond2 = (Inr ds', diamond2) \<and> distinct ds' \<and>
      set ds' = set [Some 2, Some 4, Some 3]"
    by auto
  with e d1 d2 show ?thesis by blast
qed

section \<open>Adopting a group and cycles\<close>

lemma acyclic_no_edges: "acyclic {}"
  by (simp add: acyclic_def)

lemma acyclic_adopt:
  "acyclic r \<Longrightarrow> acyclic (insert (p, c) r) \<longleftrightarrow> p \<notin> insert c (r\<^sup>+ `` {c})"
  by (auto simp: acyclic_insert rtrancl_eq_or_trancl)

text \<open>
  C1, as the claim states it, fails: with the edge from group 1 to group 2 in place, the
  relation is acyclic and group 2 is a deep descendant of group 1; group 2 adopting group 1
  is not rejected, and the relation then has the cycle 2, 1, 2.
\<close>

theorem adoptGroup_cycle_counterexample:
  "acyclic (set (groups_immediate_children store0)) \<and>
   getDeepGroupsByGroupID (Some 1) store0 = (Inr [Some 2], store0) \<and>
   adoptGroup \<lparr>group_id = Some 2, group_name = ''B''\<rparr> (Some 1) store0 =
     (Inr (), \<lparr>group_id = Some 2, group_name = ''B''\<rparr>,
      store0\<lparr>groups_immediate_children := [(Some 2, Some 1), (Some 1, Some 2)]\<rparr>) \<and>
   \<not> acyclic (set [(Some 2, Some 1), (Some (1::nat), Some (2::nat))])"
proof -
  have a: "acyclic (set (groups_immediate_children store0))"
    by (simp add: store0_def acyclic_insert acyclic_no_edges)
  have d: "getDeepGroupsByGroupID (Some 1) store0 = (Inr [Some 2], store0)"
    by (simp add: getDeepGroupsByGroupID_eq store0_def children_of_def)
  have ad: "adoptGroup \<lparr>group_id = Some 2, group_name = ''B''\<rparr> (Some 1) store0 =
     (Inr (), \<lparr>group_id = Some 2, group_name = ''B''\<rparr>,
      store0\<lparr>groups_immediate_children := [(Some 2, Some 1), (Some 1, Some 2)]\<rparr>)"
    by (simp add: adoptGroup_def keeping_def await_def getByID_def db_one_def db_none_def
        sql_get_group_by_id_def resolve_def mapRow_def
        sql_associate_child_group_with_parent_group_def store0_def)
  have "(Some (1::nat), Some (2::nat)) \<in> {(Some 1, Some 2)}\<^sup>*" by blast
  then have n: "\<not> acyclic (set [(Some 2, Some 1), (Some (1::nat), Some (2::nat))])"
    by (simp add: acyclic_insert)
  from a d ad n show ?thesis by blast
qed

text \<open>
  C1, amended. In an acyclic relation, \<open>adoptGroup\<close> with a child that exists is never
  rejected: it adds the edge from the parent to the child without any cycle check. The
  relation after the call is acyclic exactly when the parent is neither the child itself
  nor one of the child's deep descendants.
\<close>

theorem adoptGroup_acyclic_iff:
  "acyclic (set (groups_immediate_children s)) \<and> distinct (map fst (groups s)) \<and>
   childID \<in> Some ` fst ` set (groups s) \<Longrightarrow>
     \<exists>s' ds. adoptGroup parent childID s = (Inr (), parent, s') \<and>
       set (groups_immediate_children s') =
         insert (group_id parent, childID) (set (groups_immediate_children s)) \<and>
       getDeepGroupsByGroupID childID s = (Inr ds, s) \<and>
       (acyclic (set (groups_immediate_children s')) \<longleftrightarrow>
          group_id parent \<notin> insert childID (set ds))"
proof -
  assume a: "acyclic (set (groups_immediate_children s)) \<and> distinct (map fst (groups s)) \<and>
   childID \<in> Some ` fst ` set (groups s)"
  let ?s' = "s\<lparr>groups_immediate_children :=
              List.insert (group_id parent, childID) (groups_immediate_children s)\<rparr>"
  let ?ds = "deep_walk (groups_immediate_children s)
             (children_of (groups_immediate_children s) childID) []"
  from a have ad: "adoptGroup parent childID s = (Inr (), parent, ?s')"
    by (simp add: adoptGroup_present)
  have e: "set (groups_immediate_children ?s') =
         insert (group_id parent, childID) (set (groups_immediate_children s))"
    by simp
  have d: "getDeepGroupsByGroupID childID s = (Inr ?ds, s)"
    by (rule getDeepGroupsByGroupID_eq)
  from a have ac: "acyclic (set (groups_immediate_children s))" by simp
  have "acyclic (set (groups_immediate_children ?s')) \<longleftrightarrow>
          group_id parent \<notin> insert childID (set ?ds)"
    unfolding e deep_walk_trancl by (rule acyclic_adopt [OF ac])
  with ad e d show ?thesis by blast
qed

theorem adoptGroup_acyclic_iff_witness:
  "acyclic (set (groups_immediate_children store0)) \<and> distinct (map fst (groups store0)) \<and>
   Some 3 \<in> Some ` fst ` set (groups store0) \<and>
   (\<exists>s'. adoptGroup \<lparr>group_id = Some 2, group_name = ''B''\<rparr> (Some 3) store0 =
       (Inr (), \<lparr>group_id = Some 2, group_name = ''B''\<rparr>, s') \<and>
     set (groups_immediate_children s') = {(Some 2, Some 3), (Some 1, Some 2)} \<and>
     acyclic (set (groups_immediate_children s')))"
proof -
  have h: "acyclic (set (groups_immediate_children store0)) \<and> distinct (map fst (groups store0)) \<and>
     Some 3 \<in> Some ` fst ` set (groups store0)"
    by (simp add: store0_def acyclic_insert acyclic_no_edges)
  have d: "getDeepGroupsByGroupID (Some 3) store0 = (Inr [], store0)"
    by (simp add: getDeepGroupsByGroupID_eq store0_def children_of_def)
  from adoptGroup_acyclic_iff [OF h, of "\<lparr>group_id = Some 2, group_name = ''B''\<rparr>"] d
  have "\<exists>s'. adoptGroup \<lparr>group_id = Some 2, group_name = ''B''\<rparr> (Some 3) store0 =
       (Inr (), \<lparr>group_id = Some 2, group_name = ''B''\<rparr>, s') \<and>
     set (groups_immediate_children s') = {(Some 2, Some 3), (Some 1, Some 2)} \<and>
     acyclic (set (groups_immediate_children s'))"
    by (auto simp: store0_def)
  with h show ?thesis by blast
qed

section \<open>The update cycle isolates failures\<close>









end
